theory Spec2Isabelle
  imports Complex_Main
begin

section \<open>JavaScript primitives used by the services\<close>

text \<open>
  Numbers of the service (millisecond timestamps, window sizes, request counts) are
  modelled as mathematical integers. All arithmetic the services perform on them is exact
  in IEEE doubles for magnitudes below \<open>2 ^ 53\<close>; NaN, infinities and fractions are outside
  the model.
\<close>

text \<open>\<^verbatim>\<open>Number.prototype.toString()\<close> on an integer: decimal digits, most significant first,
  with a leading minus sign for negative values (JavaScript prints magnitudes from \<open>10^21\<close>
  on in exponent notation; they lie beyond the exact integers anyway).\<close>

definition digitChar :: "int \<Rightarrow> char" where
  "digitChar d =
     (if d = 0 then CHR ''0'' else if d = 1 then CHR ''1'' else if d = 2 then CHR ''2''
      else if d = 3 then CHR ''3'' else if d = 4 then CHR ''4'' else if d = 5 then CHR ''5''
      else if d = 6 then CHR ''6'' else if d = 7 then CHR ''7'' else if d = 8 then CHR ''8''
      else CHR ''9'')"

function digits :: "int \<Rightarrow> string" where
  "digits n = (if n < 10 then [digitChar n] else digits (n div 10) @ [digitChar (n mod 10)])"
  by pat_completeness auto
termination
  by (relation "measure nat") auto

declare digits.simps [simp del]

definition toString :: "int \<Rightarrow> string" where
  "toString i = (if i < 0 then CHR ''-'' # digits (- i) else digits i)"

text \<open>Comparison of two values of DynamoDB type \<open>S\<close> (the type of \<open>pk\<close> and \<open>sk\<close> in
  \<^verbatim>\<open>serverless.yml\<close>): byte-wise lexicographic order, a proper prefix being smaller.\<close>

fun str_less :: "string \<Rightarrow> string \<Rightarrow> bool" where
  "str_less [] [] = False"
| "str_less [] (y # ys) = True"
| "str_less (x # xs) [] = False"
| "str_less (x # xs) (y # ys) =
     ((of_char x :: nat) < of_char y \<or> (x = y \<and> str_less xs ys))"

definition str_ge :: "string \<Rightarrow> string \<Rightarrow> bool" where
  "str_ge a b = (\<not> str_less a b)"

text \<open>\<^verbatim>\<open>Math.ceil(x / 1000)\<close> for an integer \<open>x\<close>.\<close>

definition ceilDiv1000 :: "int \<Rightarrow> int" where
  "ceilDiv1000 x = - ((- x) div 1000)"

text \<open>Errors thrown in the services. \<open>Error\<close> is \<^verbatim>\<open>new Error(message)\<close>; \<open>TypeError\<close> is
  what \<^verbatim>\<open>Array.prototype.reduce\<close> throws on an empty array without initial value; \<open>RangeError\<close> is
  what \<^verbatim>\<open>Date.prototype.toISOString\<close> throws on an invalid date; \<open>StoreError\<close> stands
  for whatever the DynamoDB document client rejects with.\<close>

datatype err = Error string | TypeError string | RangeError string | StoreError string

text \<open>\<^verbatim>\<open>new Date(t).toISOString()\<close>: a time value beyond \<open>8.64e15\<close> milliseconds on either
  side of the epoch gives an invalid Date, on which \<^verbatim>\<open>toISOString\<close> throws a
  \<^verbatim>\<open>RangeError\<close>. Only whether it throws matters here; the text is console output.\<close>

definition validTime :: "int \<Rightarrow> bool" where
  "validTime t = (\<bar>t\<bar> \<le> 8640000000000000)"

definition toISOString :: "int \<Rightarrow> err + unit" where
  "toISOString t = (if validTime t then Inr () else Inl (RangeError ''Invalid time value''))"

section \<open>Types (\<^verbatim>\<open>src/types\<close>)\<close>

record TierRule =
  windowMs :: int
  maxRequests :: int

text \<open>The \<open>rules\<close> object of a configuration, in \<^verbatim>\<open>Object.entries\<close> order.\<close>

type_synonym rules = "(string \<times> TierRule) list"

record RateLimitConfig =
  cfg_serviceId :: string
  rules :: rules

record RateLimitConfigRecord =
  rec_serviceId :: string
  config :: rules
  createdAt :: int
  updatedAt :: int

record RateLimitUsageRecord =
  pk :: string
  sk :: string
  timestamp :: int
  ttl :: int

text \<open>A request; \<open>userTier\<close> is \<^verbatim>\<open>request.metadata?.userTier\<close> (\<open>None\<close> when the metadata or
  the field is missing).\<close>

record RateLimitRequest =
  serviceId :: string
  clientId :: string
  userTier :: "string option"

record RateLimitResponse =
  allowed :: bool
  remaining :: int
  resetTime :: int
  retryAfter :: "int option"
  meta_serviceId :: string
  meta_windowMs :: int
  meta_maxRequests :: int

definition DEFAULT_RATE_LIMITS :: "(string \<times> rules) list" where
  "DEFAULT_RATE_LIMITS =
    [(''upload-images'',
        [(''default'', \<lparr>windowMs = 7200000, maxRequests = 5\<rparr>),
         (''pro'', \<lparr>windowMs = 3600000, maxRequests = 10\<rparr>),
         (''enterprise'', \<lparr>windowMs = 1800000, maxRequests = 20\<rparr>)]),
     (''api-general'',
        [(''default'', \<lparr>windowMs = 3600000, maxRequests = 3\<rparr>),
         (''pro'', \<lparr>windowMs = 3600000, maxRequests = 10\<rparr>),
         (''enterprise'', \<lparr>windowMs = 3600000, maxRequests = 50\<rparr>)]),
     (''auth'',
        [(''default'', \<lparr>windowMs = 900000, maxRequests = 5\<rparr>),
         (''pro'', \<lparr>windowMs = 900000, maxRequests = 10\<rparr>),
         (''enterprise'', \<lparr>windowMs = 900000, maxRequests = 20\<rparr>)])]"

section \<open>The world: clock, tables, and the document client\<close>

text \<open>Commands sent through \<^verbatim>\<open>docClient.send\<close>.\<close>

datatype command =
    GetConfig string
  | PutConfig RateLimitConfigRecord
  | PutUsage RateLimitUsageRecord
  | QueryUsageGE string string
  | QueryUsageLT string string
  | DeleteUsage string string

text \<open>
  \<open>now\<close> is what \<^verbatim>\<open>Date.now()\<close> returns; a service call is taken to run within one
  millisecond, and time moves between calls. \<open>configTable\<close> holds at most one record per
  \<open>serviceId\<close> (its hash key) and \<open>usageTable\<close> at most one per \<open>(pk, sk)\<close> (hash and range
  key), as \<^verbatim>\<open>serverless.yml\<close> declares them. \<open>faults\<close> schedules the outcome of the coming
  \<^verbatim>\<open>send\<close> calls, one entry per call (\<open>Some e\<close>: the call rejects with \<open>e\<close>); when the
  schedule is used up every call succeeds. \<open>sent\<close> logs the commands sent.
\<close>

record world =
  now :: int
  configTable :: "RateLimitConfigRecord list"
  usageTable :: "RateLimitUsageRecord list"
  faults :: "err option list"
  sent :: "command list"

type_synonym 'a io = "world \<Rightarrow> (err + 'a) \<times> world"

definition returnIO :: "'a \<Rightarrow> 'a io" where
  "returnIO x = (\<lambda>w. (Inr x, w))"

definition throwIO :: "err \<Rightarrow> 'a io" where
  "throwIO e = (\<lambda>w. (Inl e, w))"

definition bindIO :: "'a io \<Rightarrow> ('a \<Rightarrow> 'b io) \<Rightarrow> 'b io" where
  "bindIO m f = (\<lambda>w. case m w of (Inl e, w') \<Rightarrow> (Inl e, w') | (Inr x, w') \<Rightarrow> f x w')"

text \<open>\<^verbatim>\<open>try { m } catch (error) { h(error) }\<close>.\<close>

definition catchIO :: "'a io \<Rightarrow> (err \<Rightarrow> 'a io) \<Rightarrow> 'a io" where
  "catchIO m h = (\<lambda>w. case m w of (Inl e, w') \<Rightarrow> h e w' | (Inr x, w') \<Rightarrow> (Inr x, w'))"

definition liftE :: "err + 'a \<Rightarrow> 'a io" where
  "liftE r = (\<lambda>w. (r, w))"

definition dateNow :: "int io" where
  "dateNow = (\<lambda>w. (Inr (now w), w))"

definition send :: "command \<Rightarrow> unit io" where
  "send c = (\<lambda>w.
     case faults w of
       [] \<Rightarrow> (Inr (), w\<lparr>sent := sent w @ [c]\<rparr>)
     | None # fs \<Rightarrow> (Inr (), w\<lparr>faults := fs, sent := sent w @ [c]\<rparr>)
     | Some e # fs \<Rightarrow> (Inl e, w\<lparr>faults := fs, sent := sent w @ [c]\<rparr>))"

section \<open>\<^verbatim>\<open>DynamoDBService\<close>\<close>

definition getConfig :: "string \<Rightarrow> RateLimitConfigRecord option io" where
  "getConfig sid =
     bindIO (send (GetConfig sid))
       (\<lambda>_ w. (Inr (find (\<lambda>r. rec_serviceId r = sid) (configTable w)), w))"


text \<open>\<^verbatim>\<open>PutCommand\<close> on the usage table: an item with the same \<open>(pk, sk)\<close> is replaced,
  otherwise the item is added.\<close>

fun putItem :: "RateLimitUsageRecord \<Rightarrow> RateLimitUsageRecord list \<Rightarrow> RateLimitUsageRecord list" where
  "putItem r [] = [r]"
| "putItem r (x # xs) = (if pk x = pk r \<and> sk x = sk r then r # xs else x # putItem r xs)"

definition usageKey :: "string \<Rightarrow> string \<Rightarrow> string" where
  "usageKey sid cid = sid @ ''#'' @ cid"

definition recordUsage :: "string \<Rightarrow> string \<Rightarrow> unit io" where
  "recordUsage sid cid =
     bindIO dateNow (\<lambda>n.
       let record = \<lparr>pk = usageKey sid cid, sk = toString n, timestamp = n,
                      ttl = n div 1000 + 24 * 60 * 60\<rparr> in
       bindIO (send (PutUsage record))
         (\<lambda>_ w. (Inr (), w\<lparr>usageTable := putItem record (usageTable w)\<rparr>)))"

text \<open>\<^verbatim>\<open>KeyConditionExpression: "pk = :pk AND sk >= :windowStart"\<close>, with \<open>:windowStart\<close>
  the string \<^verbatim>\<open>windowStartMs.toString()\<close>. The result is given in table order; its
  callers use its length and the timestamps in it.\<close>

definition getUsageInWindow :: "string \<Rightarrow> string \<Rightarrow> int \<Rightarrow> RateLimitUsageRecord list io" where
  "getUsageInWindow sid cid windowStartMs =
     bindIO (send (QueryUsageGE (usageKey sid cid) (toString windowStartMs)))
       (\<lambda>_ w. (Inr (filter (\<lambda>r. pk r = usageKey sid cid \<and> str_ge (sk r) (toString windowStartMs))
                          (usageTable w)), w))"

text \<open>The \<^verbatim>\<open>DeleteCommand\<close>s of \<^verbatim>\<open>cleanupOldUsage\<close>: one is sent per item, and
  \<^verbatim>\<open>Promise.all\<close> rejects with the first rejection; the other deletions still happen.
  The accumulator is that first rejection.\<close>

fun deleteAll :: "RateLimitUsageRecord list \<Rightarrow> err option \<Rightarrow> world \<Rightarrow> err option \<times> world" where
  "deleteAll [] acc w = (acc, w)"
| "deleteAll (item # items) acc w =
     (case send (DeleteUsage (pk item) (sk item)) w of
        (Inl e, w') \<Rightarrow> deleteAll items (case acc of None \<Rightarrow> Some e | Some e0 \<Rightarrow> Some e0) w'
      | (Inr _, w') \<Rightarrow>
          deleteAll items acc
            (w'\<lparr>usageTable :=
                 filter (\<lambda>r. \<not> (pk r = pk item \<and> sk r = sk item)) (usageTable w')\<rparr>))"

definition cleanupOldUsage :: "string \<Rightarrow> string \<Rightarrow> int \<Rightarrow> unit io" where
  "cleanupOldUsage sid cid beforeTimestamp =
     bindIO (send (QueryUsageLT (usageKey sid cid) (toString beforeTimestamp)))
       (\<lambda>_ w.
          let items = filter (\<lambda>r. pk r = usageKey sid cid \<and> str_less (sk r) (toString beforeTimestamp))
                        (usageTable w) in
          if items = [] then (Inr (), w)
          else (case deleteAll items None w of
                  (None, w') \<Rightarrow> (Inr (), w')
                | (Some e, w') \<Rightarrow> (Inl e, w')))"

section \<open>\<^verbatim>\<open>ConfigService\<close>\<close>

definition getServiceConfig :: "string \<Rightarrow> RateLimitConfig io" where
  "getServiceConfig sid =
     bindIO (getConfig sid) (\<lambda>configRecord.
       case configRecord of
         Some cr \<Rightarrow> returnIO \<lparr>cfg_serviceId = sid, rules = config cr\<rparr>
       | None \<Rightarrow>
           (case map_of DEFAULT_RATE_LIMITS sid of
              None \<Rightarrow> throwIO (Error (''No configuration found for service: '' @ sid))
            | Some defaultRules \<Rightarrow> returnIO \<lparr>cfg_serviceId = sid, rules = defaultRules\<rparr>))"

text \<open>The object \<^verbatim>\<open>{ serviceId, tier, ...rule }\<close> returned by \<^verbatim>\<open>getRateLimit\<close>.\<close>

record RateLimit = TierRule +
  rl_serviceId :: string
  tier :: string

definition getRateLimit :: "string \<Rightarrow> string \<Rightarrow> RateLimit io" where
  "getRateLimit sid t =
     bindIO (getServiceConfig sid) (\<lambda>cfg.
       case (case map_of (rules cfg) t of
               Some r \<Rightarrow> Some r
             | None \<Rightarrow> map_of (rules cfg) ''default'') of
         None \<Rightarrow>
           throwIO (Error (''No rate limit rule found for service '' @ sid @ '' and tier '' @ t))
       | Some rule \<Rightarrow>
           returnIO \<lparr>windowMs = windowMs rule, maxRequests = maxRequests rule,
                      rl_serviceId = sid, tier = t\<rparr>)"

definition quoted :: "string \<Rightarrow> string" where
  "quoted s = CHR 0x27 # s @ [CHR 0x27]"

text \<open>The loop of \<^verbatim>\<open>validateConfig\<close> over \<^verbatim>\<open>Object.entries(config.rules)\<close>. With the
  fields typed as numbers the \<^verbatim>\<open>typeof\<close> tests never fire.\<close>

fun validateRules :: "rules \<Rightarrow> err + unit" where
  "validateRules [] = Inr ()"
| "validateRules ((t, rule) # rest) =
     (if windowMs rule \<le> 0
        then Inl (Error (''windowMs for tier '' @ quoted t @ '' must be a positive number''))
      else if maxRequests rule \<le> 0
        then Inl (Error (''maxRequests for tier '' @ quoted t @ '' must be a positive number''))
      else validateRules rest)"

definition validateConfig :: "RateLimitConfig \<Rightarrow> err + unit" where
  "validateConfig cfg =
     (if cfg_serviceId cfg = [] then Inl (Error ''Service ID is required and must be a string'')
      else if map_of (rules cfg) ''default'' = None
        then Inl (Error ''Default tier configuration is required'')
      else validateRules (rules cfg))"


definition hasCustomConfig :: "string \<Rightarrow> bool io" where
  "hasCustomConfig sid =
     catchIO (bindIO (getConfig sid) (\<lambda>configRecord. returnIO (configRecord \<noteq> None)))
       (\<lambda>error. returnIO False)"

section \<open>\<^verbatim>\<open>RateLimitService\<close>\<close>

record UsageStats =
  currentUsage :: int
  stats_maxRequests :: int
  stats_windowMs :: int
  stats_resetTime :: int
  stats_remaining :: int

definition validateRequest :: "RateLimitRequest \<Rightarrow> err + unit" where
  "validateRequest request =
     (if serviceId request = [] then Inl (Error ''Service ID is required and must be a string'')
      else if clientId request = [] then Inl (Error ''Client ID is required and must be a string'')
      else (case userTier request of
              None \<Rightarrow> Inr ()
            | Some t \<Rightarrow>
                if t \<noteq> [] \<and> t \<notin> set [''free'', ''pro'', ''enterprise'', ''default'']
                then Inl (Error ''Invalid user tier specified'')
                else Inr ()))"

text \<open>\<^verbatim>\<open>request.metadata?.userTier || "default"\<close>: a missing or empty tier is "default".\<close>

definition requestTier :: "RateLimitRequest \<Rightarrow> string" where
  "requestTier request =
     (case userTier request of None \<Rightarrow> ''default'' | Some t \<Rightarrow> if t = [] then ''default'' else t)"

definition calculateNextWindowStart :: "int \<Rightarrow> int \<Rightarrow> int" where
  "calculateNextWindowStart currentTime wMs = currentTime + wMs"

text \<open>\<^verbatim>\<open>usageRecords.reduce((oldest, record) => record.timestamp < oldest.timestamp ? record : oldest)\<close>:
  no initial value, so the first element starts the fold and an empty array throws.\<close>

definition oldestRequest :: "RateLimitUsageRecord list \<Rightarrow> err + RateLimitUsageRecord" where
  "oldestRequest usageRecords =
     (case usageRecords of
        [] \<Rightarrow> Inl (TypeError ''Reduce of empty array with no initial value'')
      | first # rest \<Rightarrow>
          Inr (foldl (\<lambda>oldest record. if timestamp record < timestamp oldest then record else oldest)
                 first rest))"

definition checkRateLimit :: "RateLimitRequest \<Rightarrow> RateLimitResponse io" where
  "checkRateLimit request =
     bindIO (liftE (validateRequest request)) (\<lambda>_.
     bindIO (getRateLimit (serviceId request) (requestTier request)) (\<lambda>rateLimit.
     bindIO dateNow (\<lambda>n.
     let windowStart = n - windowMs rateLimit in
     bindIO (getUsageInWindow (serviceId request) (clientId request) windowStart) (\<lambda>usageRecords.
     let usage = int (length usageRecords);
         isAllowed = usage < maxRequests rateLimit;
         remainingNow = max 0 (maxRequests rateLimit - usage);
         reset = calculateNextWindowStart n (windowMs rateLimit) in
     bindIO (if \<not> isAllowed \<and> length usageRecords > 0
             then bindIO (liftE (oldestRequest usageRecords)) (\<lambda>oldest.
                    returnIO (Some (ceilDiv1000 (timestamp oldest + windowMs rateLimit - n))))
             else returnIO None) (\<lambda>retry.
     bindIO (if isAllowed then recordUsage (serviceId request) (clientId request)
             else returnIO ()) (\<lambda>_.
     returnIO \<lparr>allowed = isAllowed,
                remaining = (if isAllowed then remainingNow - 1 else remainingNow),
                resetTime = reset,
                retryAfter = retry,
                meta_serviceId = serviceId request,
                meta_windowMs = windowMs rateLimit,
                meta_maxRequests = maxRequests rateLimit\<rparr>))))))"

definition getUsageStats :: "string \<Rightarrow> string \<Rightarrow> string \<Rightarrow> UsageStats io" where
  "getUsageStats sid cid t =
     bindIO (getRateLimit sid t) (\<lambda>rateLimit.
     bindIO dateNow (\<lambda>n.
     let windowStart = n - windowMs rateLimit in
     bindIO (getUsageInWindow sid cid windowStart) (\<lambda>usageRecords.
     let usage = int (length usageRecords) in
     returnIO \<lparr>currentUsage = usage,
                stats_maxRequests = maxRequests rateLimit,
                stats_windowMs = windowMs rateLimit,
                stats_resetTime = calculateNextWindowStart n (windowMs rateLimit),
                stats_remaining = max 0 (maxRequests rateLimit - usage)\<rparr>)))"

definition resetRateLimit :: "string \<Rightarrow> string \<Rightarrow> unit io" where
  "resetRateLimit sid cid = bindIO dateNow (\<lambda>n. cleanupOldUsage sid cid n)"

definition isBlocked :: "string \<Rightarrow> string \<Rightarrow> string \<Rightarrow> bool io" where
  "isBlocked sid cid t =
     catchIO (bindIO (getUsageStats sid cid t) (\<lambda>stats. returnIO (stats_remaining stats \<le> 0)))
       (\<lambda>error. returnIO False)"

definition getTimeUntilReset :: "string \<Rightarrow> string \<Rightarrow> string \<Rightarrow> int io" where
  "getTimeUntilReset sid cid t =
     catchIO (bindIO (getUsageStats sid cid t) (\<lambda>stats.
                bindIO dateNow (\<lambda>n. returnIO (max 0 (stats_resetTime stats - n)))))
       (\<lambda>error. returnIO 0)"

section \<open>\<^verbatim>\<open>RateLimitService\<close>, the variant that logs each step\<close>

text \<open>
  The second copy of the service writes a console line at each step. Console output is
  not part of the model; a log statement appears below only where evaluating its
  arguments can throw, which is where a time value is formatted with
  \<^verbatim>\<open>new Date(...).toISOString()\<close>. The request id is only ever printed.
\<close>

definition checkRateLimitLogged :: "RateLimitRequest \<Rightarrow> RateLimitResponse io" where
  "checkRateLimitLogged request =
     bindIO dateNow (\<lambda>startTime.
     bindIO (liftE (toISOString startTime)) (\<lambda>_.
     bindIO (liftE (validateRequest request)) (\<lambda>_.
     bindIO (getRateLimit (serviceId request) (requestTier request)) (\<lambda>rateLimit.
     bindIO dateNow (\<lambda>n.
     let windowStart = n - windowMs rateLimit in
     bindIO (liftE (toISOString n)) (\<lambda>_.
     bindIO (liftE (toISOString windowStart)) (\<lambda>_.
     bindIO (getUsageInWindow (serviceId request) (clientId request) windowStart) (\<lambda>usageRecords.
     let usage = int (length usageRecords);
         isAllowed = usage < maxRequests rateLimit;
         remainingNow = max 0 (maxRequests rateLimit - usage);
         reset = calculateNextWindowStart n (windowMs rateLimit) in
     bindIO (liftE (toISOString reset)) (\<lambda>_.
     bindIO (if \<not> isAllowed \<and> length usageRecords > 0
             then bindIO (liftE (oldestRequest usageRecords)) (\<lambda>oldest.
                    returnIO (Some (ceilDiv1000 (timestamp oldest + windowMs rateLimit - n))))
             else returnIO None) (\<lambda>retry.
     bindIO (if isAllowed then recordUsage (serviceId request) (clientId request)
             else returnIO ()) (\<lambda>_.
     returnIO \<lparr>allowed = isAllowed,
                remaining = (if isAllowed then remainingNow - 1 else remainingNow),
                resetTime = reset,
                retryAfter = retry,
                meta_serviceId = serviceId request,
                meta_windowMs = windowMs rateLimit,
                meta_maxRequests = maxRequests rateLimit\<rparr>)))))))))))"

definition getUsageStatsLogged :: "string \<Rightarrow> string \<Rightarrow> string \<Rightarrow> UsageStats io" where
  "getUsageStatsLogged sid cid t =
     bindIO (getRateLimit sid t) (\<lambda>rateLimit.
     bindIO dateNow (\<lambda>n.
     let windowStart = n - windowMs rateLimit in
     bindIO (getUsageInWindow sid cid windowStart) (\<lambda>usageRecords.
     let usage = int (length usageRecords);
         stats = \<lparr>currentUsage = usage,
                   stats_maxRequests = maxRequests rateLimit,
                   stats_windowMs = windowMs rateLimit,
                   stats_resetTime = calculateNextWindowStart n (windowMs rateLimit),
                   stats_remaining = max 0 (maxRequests rateLimit - usage)\<rparr> in
     returnIO stats)))"

definition resetRateLimitLogged :: "string \<Rightarrow> string \<Rightarrow> unit io" where
  "resetRateLimitLogged sid cid = bindIO dateNow (\<lambda>n. cleanupOldUsage sid cid n)"

definition isBlockedLogged :: "string \<Rightarrow> string \<Rightarrow> string \<Rightarrow> bool io" where
  "isBlockedLogged sid cid t =
     catchIO (bindIO (getUsageStatsLogged sid cid t) (\<lambda>stats. returnIO (stats_remaining stats \<le> 0)))
       (\<lambda>error. returnIO False)"

definition getTimeUntilResetLogged :: "string \<Rightarrow> string \<Rightarrow> string \<Rightarrow> int io" where
  "getTimeUntilResetLogged sid cid t =
     catchIO (bindIO (getUsageStatsLogged sid cid t) (\<lambda>stats.
                bindIO dateNow (\<lambda>n. returnIO (max 0 (stats_resetTime stats - n)))))
       (\<lambda>error. returnIO 0)"

section \<open>Scenarios\<close>

text \<open>Concrete worlds on which the theorems below are exercised. \<open>usageAt key t\<close> is the
  record that \<^verbatim>\<open>recordUsage\<close> writes for \<open>key\<close> at time \<open>t\<close>.\<close>

definition usageAt :: "string \<Rightarrow> int \<Rightarrow> RateLimitUsageRecord" where
  "usageAt key t = \<lparr>pk = key, sk = toString t, timestamp = t, ttl = t div 1000 + 24 * 60 * 60\<rparr>"

definition quietWorld :: "int \<Rightarrow> RateLimitConfigRecord list \<Rightarrow> RateLimitUsageRecord list \<Rightarrow> world" where
  "quietWorld t cfgs usage = \<lparr>now = t, configTable = cfgs, usageTable = usage, faults = [], sent = []\<rparr>"

text \<open>Service "uploads" with rule \<open>{windowMs: 60000, maxRequests: 5}\<close>, and one client.\<close>

definition uploadsConfig :: RateLimitConfigRecord where
  "uploadsConfig = \<lparr>rec_serviceId = ''uploads'',
                     config = [(''default'', \<lparr>windowMs = 60000, maxRequests = 5\<rparr>)],
                     createdAt = 1699990000000, updatedAt = 1699990000000\<rparr>"

definition uploadsRequest :: RateLimitRequest where
  "uploadsRequest = \<lparr>serviceId = ''uploads'', clientId = ''ip:1.2.3.4'', userTier = None\<rparr>"

definition uploadsUsage :: "int list \<Rightarrow> RateLimitUsageRecord list" where
  "uploadsUsage ts = map (usageAt ''uploads#ip:1.2.3.4'') ts"

text \<open>Two requests 30 and 20 seconds ago.\<close>

definition worldTwoPrior :: world where
  "worldTwoPrior = quietWorld 1700000000000 [uploadsConfig]
                     (uploadsUsage [1699999970000, 1699999980000])"

text \<open>Five requests within the last 59 seconds.\<close>

definition worldFivePrior :: world where
  "worldFivePrior = quietWorld 1700000000000 [uploadsConfig]
                      (uploadsUsage [1699999941000, 1699999950000, 1699999960000,
                                     1699999970000, 1699999980000])"

text \<open>Five requests, the oldest exactly \<open>windowMs\<close> ago.\<close>

definition worldOldestAtWindowStart :: world where
  "worldOldestAtWindowStart = quietWorld 1700000000000 [uploadsConfig]
                      (uploadsUsage [1699999940000, 1699999950000, 1699999960000,
                                     1699999970000, 1699999980000])"



text \<open>The world of two prior requests, with the next \<^verbatim>\<open>send\<close> scheduled to reject.\<close>

definition worldStoreDown :: world where
  "worldStoreDown = worldTwoPrior\<lparr>faults := [Some (StoreError ''ProvisionedThroughputExceededException'')]\<rparr>"

text \<open>An empty log, the world after one admitted request in that same millisecond, and
  the worlds after one and two resets, still in that millisecond.\<close>

definition worldEmptyLog :: world where
  "worldEmptyLog = quietWorld 1700000000000 [uploadsConfig] []"

definition worldAfterAdmit :: world where
  "worldAfterAdmit = snd (checkRateLimit uploadsRequest worldEmptyLog)"

definition worldAfterReset :: world where
  "worldAfterReset = snd (resetRateLimit ''uploads'' ''ip:1.2.3.4'' worldAfterAdmit)"

definition worldAfterSecondReset :: world where
  "worldAfterSecondReset = snd (resetRateLimit ''uploads'' ''ip:1.2.3.4'' worldAfterReset)"

text \<open>A rule with a window of \<open>10^12\<close> ms (about 31.7 years), one request per window, and
  one request a second ago.\<close>

definition longWindowConfig :: RateLimitConfigRecord where
  "longWindowConfig = \<lparr>rec_serviceId = ''uploads'',
                        config = [(''default'', \<lparr>windowMs = 1000000000000, maxRequests = 1\<rparr>)],
                        createdAt = 1699990000000, updatedAt = 1699990000000\<rparr>"

definition worldLongWindow :: world where
  "worldLongWindow = quietWorld 1700000000000 [longWindowConfig] (uploadsUsage [1699999999000])"

text \<open>A rule with a window of \<open>9 * 10^15\<close> ms, and an empty log.\<close>

definition hugeWindowConfig :: RateLimitConfigRecord where
  "hugeWindowConfig = \<lparr>rec_serviceId = ''uploads'',
                        config = [(''default'', \<lparr>windowMs = 9000000000000000, maxRequests = 5\<rparr>)],
                        createdAt = 1699990000000, updatedAt = 1699990000000\<rparr>"

definition worldHugeWindow :: world where
  "worldHugeWindow = quietWorld 1700000000000 [hugeWindowConfig] []"

section \<open>Basic facts about the world\<close>

lemma bindIO_Inr_iff:
  "(bindIO m f w = (Inr y, w')) = (\<exists>x w1. m w = (Inr x, w1) \<and> f x w1 = (Inr y, w'))"
  by (auto simp: bindIO_def split: prod.splits sum.splits)

lemma returnIO_apply: "returnIO x w = (Inr x, w)"
  by (simp add: returnIO_def)

lemma liftE_apply: "liftE r w = (r, w)"
  by (simp add: liftE_def)

lemma dateNow_apply: "dateNow w = (Inr (now w), w)"
  by (simp add: dateNow_def)

lemma send_now: "send c w = (r, w') \<Longrightarrow> now w' = now w"
  by (auto simp: send_def split: list.splits option.splits)

lemma getConfig_now: "getConfig sid w = (r, w') \<Longrightarrow> now w' = now w"
  by (auto simp: getConfig_def bindIO_def split: prod.splits sum.splits dest: send_now)

lemma getServiceConfig_now: "getServiceConfig sid w = (r, w') \<Longrightarrow> now w' = now w"
  by (auto simp: getServiceConfig_def bindIO_def returnIO_def throwIO_def
      split: prod.splits sum.splits option.splits dest: getConfig_now)

lemma getRateLimit_now: "getRateLimit sid t w = (r, w') \<Longrightarrow> now w' = now w"
  by (auto simp: getRateLimit_def bindIO_def returnIO_def throwIO_def
      split: prod.splits sum.splits option.splits dest: getServiceConfig_now)

lemma foldl_oldest:
  "foldl (\<lambda>oldest record. if timestamp record < timestamp oldest then record else oldest) x xs
      \<in> set (x # xs) \<and>
   (\<forall>r \<in> set (x # xs).
      timestamp (foldl (\<lambda>oldest record. if timestamp record < timestamp oldest then record else oldest) x xs)
        \<le> timestamp r)"
proof (induction xs arbitrary: x)
  case Nil
  then show ?case by simp
next
  case (Cons y ys)
  show ?case
  proof (cases "timestamp y < timestamp x")
    case True
    with Cons.IH [of y] show ?thesis by fastforce
  next
    case False
    with Cons.IH [of x] show ?thesis by fastforce
  qed
qed

lemma oldestRequest_min:
  assumes "usageRecords \<noteq> []"
  shows "\<exists>oldest. oldestRequest usageRecords = Inr oldest \<and> oldest \<in> set usageRecords \<and>
           timestamp oldest = Min (timestamp ` set usageRecords)"
proof -
  from assms obtain x xs where xs: "usageRecords = x # xs" by (cases usageRecords) auto
  let ?o = "foldl (\<lambda>oldest record. if timestamp record < timestamp oldest then record else oldest) x xs"
  have mem: "?o \<in> set (x # xs)" and le: "\<forall>r \<in> set (x # xs). timestamp ?o \<le> timestamp r"
    using foldl_oldest [of x xs] by blast+
  have "Min (timestamp ` set (x # xs)) = timestamp ?o"
  proof (rule Min_eqI)
    show "finite (timestamp ` set (x # xs))" by simp
    show "\<And>y. y \<in> timestamp ` set (x # xs) \<Longrightarrow> timestamp ?o \<le> y" using le by auto
    show "timestamp ?o \<in> timestamp ` set (x # xs)" using mem by (rule imageI)
  qed
  with mem show ?thesis by (simp add: oldestRequest_def xs)
qed


lemma checkRateLimit_Inr:
  assumes "checkRateLimit request w = (Inr response, w')"
  shows "\<exists>rateLimit w1 usageRecords w2.
           validateRequest request = Inr () \<and>
           getRateLimit (serviceId request) (requestTier request) w = (Inr rateLimit, w1) \<and>
           getUsageInWindow (serviceId request) (clientId request) (now w - windowMs rateLimit) w1
             = (Inr usageRecords, w2) \<and>
           allowed response = (int (length usageRecords) < maxRequests rateLimit) \<and>
           remaining response =
             (if allowed response then max 0 (maxRequests rateLimit - int (length usageRecords)) - 1
              else max 0 (maxRequests rateLimit - int (length usageRecords))) \<and>
           resetTime response = now w + windowMs rateLimit \<and>
           retryAfter response =
             (if \<not> allowed response \<and> usageRecords \<noteq> []
              then Some (ceilDiv1000 (Min (timestamp ` set usageRecords) + windowMs rateLimit - now w))
              else None) \<and>
           meta_serviceId response = serviceId request \<and>
           meta_windowMs response = windowMs rateLimit \<and>
           meta_maxRequests response = maxRequests rateLimit \<and>
           (if allowed response
            then recordUsage (serviceId request) (clientId request) w2 = (Inr (), w')
            else w' = w2)"
proof -
  from assms obtain rateLimit w1 usageRecords w2 retry where
    v: "validateRequest request = Inr ()" and
    rl: "getRateLimit (serviceId request) (requestTier request) w = (Inr rateLimit, w1)" and
    q: "getUsageInWindow (serviceId request) (clientId request) (now w1 - windowMs rateLimit) w1
          = (Inr usageRecords, w2)" and
    r: "(if \<not> int (length usageRecords) < maxRequests rateLimit \<and> 0 < length usageRecords
         then bindIO (liftE (oldestRequest usageRecords)) (\<lambda>oldest.
                returnIO (Some (ceilDiv1000 (timestamp oldest + windowMs rateLimit - now w1))))
         else returnIO None) w2 = (Inr retry, w2)" and
    p: "(if int (length usageRecords) < maxRequests rateLimit
         then recordUsage (serviceId request) (clientId request) w2 = (Inr (), w')
         else w' = w2)" and
    resp: "response = \<lparr>allowed = int (length usageRecords) < maxRequests rateLimit,
                remaining = (if int (length usageRecords) < maxRequests rateLimit
                             then max 0 (maxRequests rateLimit - int (length usageRecords)) - 1
                             else max 0 (maxRequests rateLimit - int (length usageRecords))),
                resetTime = now w1 + windowMs rateLimit,
                retryAfter = retry,
                meta_serviceId = serviceId request,
                meta_windowMs = windowMs rateLimit,
                meta_maxRequests = maxRequests rateLimit\<rparr>"
    unfolding checkRateLimit_def
    by (auto simp: bindIO_Inr_iff liftE_apply returnIO_apply dateNow_apply Let_def
        calculateNextWindowStart_def split: if_splits)
  have n: "now w1 = now w" using rl by (rule getRateLimit_now)
  have retry: "retry = (if \<not> int (length usageRecords) < maxRequests rateLimit \<and> usageRecords \<noteq> []
              then Some (ceilDiv1000 (Min (timestamp ` set usageRecords) + windowMs rateLimit - now w))
              else None)"
  proof (cases "\<not> int (length usageRecords) < maxRequests rateLimit \<and> usageRecords \<noteq> []")
    case True
    then obtain oldest where "oldestRequest usageRecords = Inr oldest"
      "timestamp oldest = Min (timestamp ` set usageRecords)"
      using oldestRequest_min by blast
    with True r n show ?thesis
      by (simp add: bindIO_def liftE_apply returnIO_apply)
  next
    case False
    with r show ?thesis by (auto simp: returnIO_apply)
  qed
  show ?thesis
    using v rl q p by (intro exI [of _ rateLimit] exI [of _ w1] exI [of _ usageRecords] exI [of _ w2])
      (simp add: resp retry n)
qed

lemma fst_snd_eq: "fst p = a \<Longrightarrow> p = (a, snd p)"
  by (cases p) simp

section \<open>Admission decisions\<close>





text \<open>
  C6, as the code has it. When \<open>retryAfter\<close> is present it is not negative, provided no
  returned record is older than the window start \<open>now - windowMs\<close>; it is strictly
  positive provided every returned record is strictly younger than the window start.
\<close>

theorem checkRateLimit_retryAfter_sign:
  assumes "checkRateLimit request w = (Inr response, w')"
    and "getRateLimit (serviceId request) (requestTier request) w = (Inr rateLimit, w1)"
    and "getUsageInWindow (serviceId request) (clientId request) (now w - windowMs rateLimit) w1
           = (Inr usageRecords, w2)"
    and "retryAfter response = Some s"
  shows "((\<forall>r \<in> set usageRecords. now w - windowMs rateLimit \<le> timestamp r) \<longrightarrow> 0 \<le> s) \<and>
         ((\<forall>r \<in> set usageRecords. now w - windowMs rateLimit < timestamp r) \<longrightarrow> 0 < s)"
proof -
  from checkRateLimit_Inr [OF assms(1)] assms(2,3,4)
  have ne: "usageRecords \<noteq> []"
    and s: "s = ceilDiv1000 (Min (timestamp ` set usageRecords) + windowMs rateLimit - now w)"
    by (auto split: if_splits)
  from ne have "Min (timestamp ` set usageRecords) \<in> timestamp ` set usageRecords"
    by (intro Min_in) auto
  then obtain r where r: "r \<in> set usageRecords" "timestamp r = Min (timestamp ` set usageRecords)"
    by auto
  show ?thesis
  proof (intro conjI impI)
    assume "\<forall>r \<in> set usageRecords. now w - windowMs rateLimit \<le> timestamp r"
    with r have "0 \<le> Min (timestamp ` set usageRecords) + windowMs rateLimit - now w" by force
    then show "0 \<le> s" unfolding s ceilDiv1000_def by linarith
  next
    assume "\<forall>r \<in> set usageRecords. now w - windowMs rateLimit < timestamp r"
    with r have "0 < Min (timestamp ` set usageRecords) + windowMs rateLimit - now w" by force
    then show "0 < s" unfolding s ceilDiv1000_def by linarith
  qed
qed

theorem checkRateLimit_retryAfter_sign_witness:
  "fst (checkRateLimit uploadsRequest worldFivePrior) =
     Inr \<lparr>allowed = False, remaining = 0, resetTime = 1700000060000, retryAfter = Some 1,
          meta_serviceId = ''uploads'', meta_windowMs = 60000, meta_maxRequests = 5\<rparr> \<and>
   list_all (\<lambda>r. 1700000000000 - 60000 < timestamp r)
     (uploadsUsage [1699999941000, 1699999950000, 1699999960000, 1699999970000, 1699999980000]) \<and>
   (0::int) \<le> 1 \<and> (0::int) < 1"
proof -
  let ?resp = "\<lparr>allowed = False, remaining = 0, resetTime = 1700000060000, retryAfter = Some 1,
          meta_serviceId = ''uploads'', meta_windowMs = 60000, meta_maxRequests = 5\<rparr>"
  let ?rl = "\<lparr>windowMs = 60000, maxRequests = 5, rl_serviceId = ''uploads'', tier = ''default''\<rparr>"
  let ?recs = "uploadsUsage [1699999941000, 1699999950000, 1699999960000, 1699999970000, 1699999980000]"
  have c: "fst (checkRateLimit uploadsRequest worldFivePrior) = Inr ?resp"
    by code_simp
  have g: "fst (getRateLimit (serviceId uploadsRequest) (requestTier uploadsRequest) worldFivePrior)
             = Inr ?rl"
    by code_simp
  have q: "fst (getUsageInWindow (serviceId uploadsRequest) (clientId uploadsRequest)
             (now worldFivePrior - windowMs ?rl)
             (snd (getRateLimit (serviceId uploadsRequest) (requestTier uploadsRequest) worldFivePrior)))
             = Inr ?recs"
    by code_simp
  have n: "now worldFivePrior = 1700000000000"
    by (simp add: worldFivePrior_def quietWorld_def)
  have inside: "list_all (\<lambda>r. 1700000000000 - 60000 < timestamp r) ?recs"
    by (simp add: uploadsUsage_def usageAt_def)
  then have strict: "\<forall>r \<in> set ?recs. now worldFivePrior - windowMs ?rl < timestamp r"
    by (simp add: n list_all_iff)
  then have weak: "\<forall>r \<in> set ?recs. now worldFivePrior - windowMs ?rl \<le> timestamp r"
    by force
  from checkRateLimit_retryAfter_sign [OF fst_snd_eq [OF c] fst_snd_eq [OF g] fst_snd_eq [OF q], of 1]
    strict weak
  have "(0::int) \<le> 1 \<and> (0::int) < 1" by simp
  then show ?thesis using c inside by simp
qed

text \<open>
  C6 as stated fails when the oldest record sits exactly at the window start, which the
  query's \<^verbatim>\<open>sk >= :windowStart\<close> includes: the request is denied with \<open>retryAfter = 0\<close>.
\<close>

theorem retryAfter_zero_counterexample:
  "fst (checkRateLimit uploadsRequest worldOldestAtWindowStart) =
     Inr \<lparr>allowed = False, remaining = 0, resetTime = 1700000060000, retryAfter = Some 0,
          meta_serviceId = ''uploads'', meta_windowMs = 60000, meta_maxRequests = 5\<rparr> \<and>
   list_all (\<lambda>r. now worldOldestAtWindowStart - 60000 \<le> timestamp r \<and>
                  timestamp r \<le> now worldOldestAtWindowStart)
     (usageTable worldOldestAtWindowStart)"
  by code_simp

section \<open>Configuration\<close>













section \<open>Failure policy\<close>

lemma isBlocked_total: "\<exists>b w1. isBlocked sid cid t w = (Inr b, w1)"
  by (auto simp: isBlocked_def catchIO_def bindIO_def returnIO_def split: prod.splits sum.splits)

lemma getTimeUntilReset_total: "\<exists>n w1. getTimeUntilReset sid cid t w = (Inr n, w1)"
  by (auto simp: getTimeUntilReset_def catchIO_def bindIO_def returnIO_def dateNow_def
      split: prod.splits sum.splits)

lemma hasCustomConfig_total: "\<exists>b w1. hasCustomConfig sid w = (Inr b, w1)"
  by (auto simp: hasCustomConfig_def catchIO_def bindIO_def returnIO_def split: prod.splits sum.splits)

lemma getRateLimit_getConfig_fail:
  "getConfig sid w = (Inl e, w1) \<Longrightarrow> getRateLimit sid t w = (Inl e, w1)"
  by (simp add: getRateLimit_def getServiceConfig_def bindIO_def)

text \<open>
  C8. When the statistics call under them fails (through a failing configuration or store
  call), \<^verbatim>\<open>isBlocked\<close> returns \<open>false\<close> and \<^verbatim>\<open>getTimeUntilReset\<close> returns \<open>0\<close>; when the
  store read fails, \<^verbatim>\<open>hasCustomConfig\<close> returns \<open>false\<close>; none of the three ever returns
  an error. A failure of the store read makes the configuration lookup fail with the same
  error, and a failure of the lookup or of the window query makes the statistics call fail
  with it. \<^verbatim>\<open>checkRateLimit\<close> fails with the very error of the configuration lookup, of
  the window query, or of the recording write, and \<^verbatim>\<open>resetRateLimit\<close> with the very error
  of the cleanup.
\<close>

theorem failure_policy:
  "(\<forall>e w1. getUsageStats sid cid t w = (Inl e, w1) \<longrightarrow>
      isBlocked sid cid t w = (Inr False, w1) \<and> getTimeUntilReset sid cid t w = (Inr 0, w1)) \<and>
   (\<forall>e w1. getConfig sid w = (Inl e, w1) \<longrightarrow> hasCustomConfig sid w = (Inr False, w1)) \<and>
   (\<forall>e w1. isBlocked sid cid t w \<noteq> (Inl e, w1) \<and> getTimeUntilReset sid cid t w \<noteq> (Inl e, w1) \<and>
            hasCustomConfig sid w \<noteq> (Inl e, w1)) \<and>
   (\<forall>e w1. getConfig sid w = (Inl e, w1) \<longrightarrow> getRateLimit sid t w = (Inl e, w1)) \<and>
   (\<forall>e w1. getRateLimit sid t w = (Inl e, w1) \<longrightarrow> getUsageStats sid cid t w = (Inl e, w1)) \<and>
   (\<forall>e rl w1 w2. getRateLimit sid t w = (Inr rl, w1) \<and>
        getUsageInWindow sid cid (now w - windowMs rl) w1 = (Inl e, w2) \<longrightarrow>
        getUsageStats sid cid t w = (Inl e, w2)) \<and>
   (\<forall>e w1. validateRequest request = Inr () \<and>
        getRateLimit (serviceId request) (requestTier request) w = (Inl e, w1) \<longrightarrow>
        checkRateLimit request w = (Inl e, w1)) \<and>
   (\<forall>e rl w1 w2. validateRequest request = Inr () \<and>
        getRateLimit (serviceId request) (requestTier request) w = (Inr rl, w1) \<and>
        getUsageInWindow (serviceId request) (clientId request) (now w - windowMs rl) w1 = (Inl e, w2) \<longrightarrow>
        checkRateLimit request w = (Inl e, w2)) \<and>
   (\<forall>e rl w1 recs w2 w3. validateRequest request = Inr () \<and>
        getRateLimit (serviceId request) (requestTier request) w = (Inr rl, w1) \<and>
        getUsageInWindow (serviceId request) (clientId request) (now w - windowMs rl) w1 = (Inr recs, w2) \<and>
        int (length recs) < maxRequests rl \<and>
        recordUsage (serviceId request) (clientId request) w2 = (Inl e, w3) \<longrightarrow>
        checkRateLimit request w = (Inl e, w3)) \<and>
   (\<forall>e w1. cleanupOldUsage sid cid (now w) w = (Inl e, w1) \<longrightarrow>
        resetRateLimit sid cid w = (Inl e, w1))"
proof (intro conjI allI impI)
  fix e w1 assume a: "getUsageStats sid cid t w = (Inl e, w1)"
  show "isBlocked sid cid t w = (Inr False, w1)"
    using a by (simp add: isBlocked_def catchIO_def bindIO_def returnIO_def)
  show "getTimeUntilReset sid cid t w = (Inr 0, w1)"
    using a by (simp add: getTimeUntilReset_def catchIO_def bindIO_def returnIO_def)
next
  fix e w1 assume "getConfig sid w = (Inl e, w1)"
  then show "hasCustomConfig sid w = (Inr False, w1)"
    by (simp add: hasCustomConfig_def catchIO_def bindIO_def returnIO_def)
next
  fix e w1
  show "isBlocked sid cid t w \<noteq> (Inl e, w1)"
    using isBlocked_total [of sid cid t w] by auto
  show "getTimeUntilReset sid cid t w \<noteq> (Inl e, w1)"
    using getTimeUntilReset_total [of sid cid t w] by auto
  show "hasCustomConfig sid w \<noteq> (Inl e, w1)"
    using hasCustomConfig_total [of sid w] by auto
next
  fix e w1 assume "getConfig sid w = (Inl e, w1)"
  then show "getRateLimit sid t w = (Inl e, w1)" by (rule getRateLimit_getConfig_fail)
next
  fix e w1 assume "getRateLimit sid t w = (Inl e, w1)"
  then show "getUsageStats sid cid t w = (Inl e, w1)"
    by (simp add: getUsageStats_def bindIO_def)
next
  fix e rl w1 w2
  assume a: "getRateLimit sid t w = (Inr rl, w1) \<and>
        getUsageInWindow sid cid (now w - windowMs rl) w1 = (Inl e, w2)"
  then have "now w1 = now w" by (auto dest: getRateLimit_now)
  with a show "getUsageStats sid cid t w = (Inl e, w2)"
    by (simp add: getUsageStats_def bindIO_def dateNow_def Let_def)
next
  fix e w1
  assume "validateRequest request = Inr () \<and>
        getRateLimit (serviceId request) (requestTier request) w = (Inl e, w1)"
  then show "checkRateLimit request w = (Inl e, w1)"
    by (simp add: checkRateLimit_def bindIO_def liftE_def)
next
  fix e rl w1 w2
  assume a: "validateRequest request = Inr () \<and>
        getRateLimit (serviceId request) (requestTier request) w = (Inr rl, w1) \<and>
        getUsageInWindow (serviceId request) (clientId request) (now w - windowMs rl) w1 = (Inl e, w2)"
  then have "now w1 = now w" by (auto dest: getRateLimit_now)
  with a show "checkRateLimit request w = (Inl e, w2)"
    by (simp add: checkRateLimit_def bindIO_def liftE_def dateNow_def Let_def)
next
  fix e rl w1 recs w2 w3
  assume a: "validateRequest request = Inr () \<and>
        getRateLimit (serviceId request) (requestTier request) w = (Inr rl, w1) \<and>
        getUsageInWindow (serviceId request) (clientId request) (now w - windowMs rl) w1 = (Inr recs, w2) \<and>
        int (length recs) < maxRequests rl \<and>
        recordUsage (serviceId request) (clientId request) w2 = (Inl e, w3)"
  then have "now w1 = now w" by (auto dest: getRateLimit_now)
  with a show "checkRateLimit request w = (Inl e, w3)"
    by (simp add: checkRateLimit_def bindIO_def liftE_def dateNow_def Let_def returnIO_def)
next
  fix e w1 assume "cleanupOldUsage sid cid (now w) w = (Inl e, w1)"
  then show "resetRateLimit sid cid w = (Inl e, w1)"
    by (simp add: resetRateLimit_def bindIO_def dateNow_def)
qed

theorem failure_policy_witness:
  "fst (isBlocked ''uploads'' ''ip:1.2.3.4'' ''default'' worldStoreDown) = Inr False \<and>
   fst (getTimeUntilReset ''uploads'' ''ip:1.2.3.4'' ''default'' worldStoreDown) = Inr 0 \<and>
   fst (hasCustomConfig ''uploads'' worldStoreDown) = Inr False \<and>
   fst (checkRateLimit uploadsRequest worldStoreDown) =
     Inl (StoreError ''ProvisionedThroughputExceededException'') \<and>
   fst (resetRateLimit ''uploads'' ''ip:1.2.3.4'' worldStoreDown) =
     Inl (StoreError ''ProvisionedThroughputExceededException'')"
proof -
  let ?e = "StoreError ''ProvisionedThroughputExceededException''"
  let ?w1 = "snd (getConfig ''uploads'' worldStoreDown)"
  let ?w2 = "snd (cleanupOldUsage ''uploads'' ''ip:1.2.3.4'' (now worldStoreDown) worldStoreDown)"
  have r: "serviceId uploadsRequest = ''uploads''" "requestTier uploadsRequest = ''default''"
    by (simp_all add: uploadsRequest_def requestTier_def)
  have v: "validateRequest uploadsRequest = Inr ()" by code_simp
  have "fst (getConfig ''uploads'' worldStoreDown) = Inl ?e" by code_simp
  then have g: "getConfig ''uploads'' worldStoreDown = (Inl ?e, ?w1)" by (rule fst_snd_eq)
  have "fst (cleanupOldUsage ''uploads'' ''ip:1.2.3.4'' (now worldStoreDown) worldStoreDown) = Inl ?e"
    by code_simp
  then have c: "cleanupOldUsage ''uploads'' ''ip:1.2.3.4'' (now worldStoreDown) worldStoreDown = (Inl ?e, ?w2)"
    by (rule fst_snd_eq)
  note P = failure_policy [of "''uploads''" "''ip:1.2.3.4''" "''default''" worldStoreDown uploadsRequest]
  note P1 = P [THEN conjunct1, rule_format]
  note P2 = P [THEN conjunct2, THEN conjunct1, rule_format]
  note P4 = P [THEN conjunct2, THEN conjunct2, THEN conjunct2, THEN conjunct1, rule_format]
  note P5 = P [THEN conjunct2, THEN conjunct2, THEN conjunct2, THEN conjunct2, THEN conjunct1,
      rule_format]
  note P7 = P [THEN conjunct2, THEN conjunct2, THEN conjunct2, THEN conjunct2, THEN conjunct2,
      THEN conjunct2, THEN conjunct1, rule_format]
  note P10 = P [THEN conjunct2, THEN conjunct2, THEN conjunct2, THEN conjunct2, THEN conjunct2,
      THEN conjunct2, THEN conjunct2, THEN conjunct2, THEN conjunct2, rule_format]
  have h: "hasCustomConfig ''uploads'' worldStoreDown = (Inr False, ?w1)"
    using g by (rule P2)
  have l: "getRateLimit ''uploads'' ''default'' worldStoreDown = (Inl ?e, ?w1)"
    using g by (rule P4)
  have u: "getUsageStats ''uploads'' ''ip:1.2.3.4'' ''default'' worldStoreDown = (Inl ?e, ?w1)"
    using l by (rule P5)
  have b: "isBlocked ''uploads'' ''ip:1.2.3.4'' ''default'' worldStoreDown = (Inr False, ?w1)"
    and t: "getTimeUntilReset ''uploads'' ''ip:1.2.3.4'' ''default'' worldStoreDown = (Inr 0, ?w1)"
    using P1 [OF u] by simp_all
  have k: "checkRateLimit uploadsRequest worldStoreDown = (Inl ?e, ?w1)"
    using v l P7 [of ?e ?w1] by (simp add: r)
  have z: "resetRateLimit ''uploads'' ''ip:1.2.3.4'' worldStoreDown = (Inl ?e, ?w2)"
    using c by (rule P10)
  show ?thesis by (simp add: h b t k z)
qed

section \<open>Decimal sort keys\<close>

text \<open>On decimal strings of equal length of non-negative numbers, the byte-wise order of
  the strings is the order of the numbers.\<close>

lemma digits_small: "n < 10 \<Longrightarrow> digits n = [digitChar n]"
  by (simp add: digits.simps)

lemma digits_big: "10 \<le> n \<Longrightarrow> digits n = digits (n div 10) @ [digitChar (n mod 10)]"
  by (subst digits.simps) simp

lemma digits_nonempty: "digits n \<noteq> []"
  by (subst digits.simps) simp

lemma length_digits_big: "10 \<le> n \<Longrightarrow> Suc 0 < length (digits n)"
  by (simp add: digits_big digits_nonempty)

lemma digit_cases:
  assumes "0 \<le> d" "d < 10"
  shows "d = 0 \<or> d = 1 \<or> d = 2 \<or> d = 3 \<or> d = 4 \<or> d = 5 \<or> d = 6 \<or> d = 7 \<or> d = 8 \<or> d = (9::int)"
  using assms by arith

lemma of_char_digitChar:
  assumes "0 \<le> d" "d < 10"
  shows "(of_char (digitChar d) :: nat) = nat (48 + d)"
  using digit_cases [OF assms] by (elim disjE) (simp_all add: digitChar_def)

lemma digitChar_less:
  assumes "0 \<le> a" "a < 10" "0 \<le> b" "b < 10"
  shows "((of_char (digitChar a) :: nat) < of_char (digitChar b)) = (a < b)"
  using assms by (simp add: of_char_digitChar)

lemma digitChar_eq:
  assumes "0 \<le> a" "a < 10" "0 \<le> b" "b < 10"
  shows "(digitChar a = digitChar b) = (a = b)"
proof
  assume "digitChar a = digitChar b"
  then have "(of_char (digitChar a) :: nat) = of_char (digitChar b)" by simp
  with assms show "a = b" by (simp add: of_char_digitChar)
qed simp

lemma str_less_snoc:
  "length xs = length ys \<Longrightarrow>
   str_less (xs @ [x]) (ys @ [y]) =
     (str_less xs ys \<or> (xs = ys \<and> (of_char x :: nat) < of_char y))"
  by (induction xs ys rule: list_induct2) auto

lemma lex10:
  fixes qa ra qb rb :: int
  assumes "0 \<le> ra" "ra < 10" "0 \<le> rb" "rb < 10"
  shows "(10 * qa + ra < 10 * qb + rb) = (qa < qb \<or> (qa = qb \<and> ra < rb))"
    and "(10 * qa + ra = 10 * qb + rb) = (qa = qb \<and> ra = rb)"
  using assms by arith+

lemma div10_less: "((a::int) < b) = (a div 10 < b div 10 \<or> (a div 10 = b div 10 \<and> a mod 10 < b mod 10))"
  using lex10(1) [of "a mod 10" "b mod 10" "a div 10" "b div 10"] by simp

lemma div10_eq: "((a::int) = b) = (a div 10 = b div 10 \<and> a mod 10 = b mod 10)"
  using lex10(2) [of "a mod 10" "b mod 10" "a div 10" "b div 10"] by simp
lemma digits_order:
  "0 \<le> a \<Longrightarrow> 0 \<le> b \<Longrightarrow> length (digits a) = length (digits b) \<Longrightarrow>
   str_less (digits a) (digits b) = (a < b) \<and> (digits a = digits b) = (a = b)"
proof (induction a arbitrary: b rule: digits.induct)
  case (1 a)
  show ?case
  proof (cases "a < 10")
    case True
    have b: "b < 10"
    proof (rule ccontr)
      assume "\<not> b < 10"
      then have "Suc 0 < length (digits b)" by (simp add: length_digits_big)
      with True "1.prems" show False by (simp add: digits_small)
    qed
    with True "1.prems" show ?thesis
      by (simp add: digits_small digitChar_less digitChar_eq)
  next
    case False
    then have a: "10 \<le> a" by simp
    have b: "10 \<le> b"
    proof (rule ccontr)
      assume "\<not> 10 \<le> b"
      then have "length (digits b) = Suc 0" by (simp add: digits_small)
      with length_digits_big [OF a] "1.prems" show False by simp
    qed
    from a b "1.prems" have len: "length (digits (a div 10)) = length (digits (b div 10))"
      by (simp add: digits_big)
    from a b have nn: "0 \<le> a div 10" "0 \<le> b div 10" by simp_all
    from "1.IH" [OF False nn len]
    have IH: "str_less (digits (a div 10)) (digits (b div 10)) = (a div 10 < b div 10)"
      "(digits (a div 10) = digits (b div 10)) = (a div 10 = b div 10)"
      by simp_all
    have m: "0 \<le> a mod 10" "a mod 10 < 10" "0 \<le> b mod 10" "b mod 10 < 10" by simp_all
    note lt = div10_less [of a b] and eq = div10_eq [of a b]
    have da: "digits a = digits (a div 10) @ [digitChar (a mod 10)]"
      and db: "digits b = digits (b div 10) @ [digitChar (b mod 10)]"
      using a b by (simp_all add: digits_big)
    have s1: "str_less (digits a) (digits b) =
        (a div 10 < b div 10 \<or> (a div 10 = b div 10 \<and> a mod 10 < b mod 10))"
      unfolding da db by (simp add: str_less_snoc [OF len] IH digitChar_less [OF m])
    have s2: "(digits a = digits b) = (a div 10 = b div 10 \<and> a mod 10 = b mod 10)"
      unfolding da db by (simp add: IH digitChar_eq [OF m])
    show ?thesis
      unfolding s1 s2 using lt eq by blast
  qed
qed

lemma toString_less:
  assumes "0 \<le> a" "0 \<le> b" "length (toString a) = length (toString b)"
  shows "str_less (toString a) (toString b) = (a < b)"
  using assms digits_order [of a b] by (simp add: toString_def)

section \<open>Facts about the usage table\<close>

lemma send_no_fault:
  "faults w = [] \<Longrightarrow> send c w = (Inr (), w\<lparr>sent := sent w @ [c]\<rparr>)"
  by (simp add: send_def)

lemma deleteAll_no_fault:
  "faults w = [] \<Longrightarrow>
   deleteAll items None w =
     (None, w\<lparr>usageTable := filter (\<lambda>r. \<not> (\<exists>i \<in> set items. pk r = pk i \<and> sk r = sk i)) (usageTable w),
              sent := sent w @ map (\<lambda>i. DeleteUsage (pk i) (sk i)) items\<rparr>)"
proof (induction items arbitrary: w)
  case Nil
  then show ?case by simp
next
  case (Cons item items)
  let ?w' = "w\<lparr>sent := sent w @ [DeleteUsage (pk item) (sk item)],
               usageTable := filter (\<lambda>r. \<not> (pk r = pk item \<and> sk r = sk item)) (usageTable w)\<rparr>"
  have f: "faults ?w' = []" using Cons.prems by simp
  have "deleteAll (item # items) None w = deleteAll items None ?w'"
    using Cons.prems by (simp add: send_no_fault)
  also have "\<dots> = (None, ?w'\<lparr>usageTable :=
        filter (\<lambda>r. \<not> (\<exists>i \<in> set items. pk r = pk i \<and> sk r = sk i)) (usageTable ?w'),
        sent := sent ?w' @ map (\<lambda>i. DeleteUsage (pk i) (sk i)) items\<rparr>)"
    by (rule Cons.IH [OF f])
  also have "\<dots> = (None, w\<lparr>usageTable :=
        filter (\<lambda>r. \<not> (\<exists>i \<in> set (item # items). pk r = pk i \<and> sk r = sk i)) (usageTable w),
        sent := sent w @ map (\<lambda>i. DeleteUsage (pk i) (sk i)) (item # items)\<rparr>)"
    by (auto intro!: filter_cong)
  finally show ?case .
qed

lemma cleanupOldUsage_no_fault:
  assumes "faults w = []"
  shows "\<exists>w1. cleanupOldUsage sid cid n w = (Inr (), w1) \<and>
           usageTable w1 =
             filter (\<lambda>r. \<not> (pk r = usageKey sid cid \<and> str_less (sk r) (toString n))) (usageTable w) \<and>
           faults w1 = [] \<and> now w1 = now w \<and> configTable w1 = configTable w"
proof -
  let ?P = "\<lambda>r. pk r = usageKey sid cid \<and> str_less (sk r) (toString n)"
  let ?w0 = "w\<lparr>sent := sent w @ [QueryUsageLT (usageKey sid cid) (toString n)]\<rparr>"
  let ?items = "filter ?P (usageTable w)"
  have f0: "faults ?w0 = []" using assms by simp
  have same: "filter (\<lambda>r. \<not> (\<exists>i \<in> set ?items. pk r = pk i \<and> sk r = sk i)) (usageTable w)
                = filter (\<lambda>r. \<not> ?P r) (usageTable w)"
    by (rule filter_cong) auto
  show ?thesis
  proof (cases "?items = []")
    case True
    then have "filter (\<lambda>r. \<not> ?P r) (usageTable w) = usageTable w"
      by (auto simp: filter_empty_conv filter_id_conv)
    with True assms show ?thesis
      by (simp add: cleanupOldUsage_def bindIO_def send_no_fault Let_def)
  next
    case False
    obtain w' where d: "deleteAll ?items None ?w0 = (None, w')"
      and w': "w' = ?w0\<lparr>usageTable :=
                 filter (\<lambda>r. \<not> (\<exists>i \<in> set ?items. pk r = pk i \<and> sk r = sk i)) (usageTable ?w0),
                 sent := sent ?w0 @ map (\<lambda>i. DeleteUsage (pk i) (sk i)) ?items\<rparr>"
      using deleteAll_no_fault [OF f0, of ?items] by blast
    have "usageTable w' =
        filter (\<lambda>r. \<not> (\<exists>i \<in> set ?items. pk r = pk i \<and> sk r = sk i)) (usageTable w)"
      unfolding w' by simp
    also note same
    finally have t: "usageTable w' = filter (\<lambda>r. \<not> ?P r) (usageTable w)" .
    have rest: "faults w' = []" "now w' = now w" "configTable w' = configTable w"
      unfolding w' using assms by simp_all
    have "cleanupOldUsage sid cid n w = (Inr (), w')"
      using assms False d by (simp add: cleanupOldUsage_def bindIO_def send_no_fault Let_def)
    with t rest show ?thesis by blast
  qed
qed

lemma getUsageInWindow_no_fault:
  "faults w = [] \<Longrightarrow>
   getUsageInWindow sid cid ws w =
     (Inr (filter (\<lambda>r. pk r = usageKey sid cid \<and> str_ge (sk r) (toString ws)) (usageTable w)),
      w\<lparr>sent := sent w @ [QueryUsageGE (usageKey sid cid) (toString ws)]\<rparr>)"
  by (simp add: getUsageInWindow_def bindIO_def send_no_fault)

lemma send_tables: "send c w = (r, w') \<Longrightarrow> usageTable w' = usageTable w \<and> configTable w' = configTable w"
  by (auto simp: send_def split: list.splits option.splits)

lemma getConfig_usageTable: "getConfig sid w = (r, w') \<Longrightarrow> usageTable w' = usageTable w"
  by (auto simp: getConfig_def bindIO_def split: prod.splits sum.splits dest: send_tables)

lemma getRateLimit_usageTable: "getRateLimit sid t w = (r, w') \<Longrightarrow> usageTable w' = usageTable w"
  by (auto simp: getRateLimit_def getServiceConfig_def bindIO_def returnIO_def throwIO_def
      split: prod.splits sum.splits option.splits dest: getConfig_usageTable)

lemma getUsageInWindow_Inr:
  assumes "getUsageInWindow sid cid ws w = (Inr recs, w')"
  shows "recs = filter (\<lambda>r. pk r = usageKey sid cid \<and> str_ge (sk r) (toString ws)) (usageTable w) \<and>
         usageTable w' = usageTable w \<and> now w' = now w"
  using assms
  by (auto simp: getUsageInWindow_def bindIO_def split: prod.splits sum.splits
      dest: send_tables send_now)

lemma recordUsage_Inr:
  assumes "recordUsage sid cid w = (Inr (), w')"
  shows "usageTable w' = putItem (usageAt (usageKey sid cid) (now w)) (usageTable w)"
  using assms
  by (auto simp: recordUsage_def bindIO_def dateNow_def usageAt_def Let_def
      split: prod.splits sum.splits dest: send_tables)

lemma length_putItem:
  "length (putItem r t) =
     (if \<exists>x \<in> set t. pk x = pk r \<and> sk x = sk r then length t else Suc (length t))"
  by (induction t) auto

lemma checkRateLimit_usageTable:
  assumes "checkRateLimit request w = (Inr response, w')"
  shows "usageTable w' =
           (if allowed response
            then putItem (usageAt (usageKey (serviceId request) (clientId request)) (now w)) (usageTable w)
            else usageTable w)"
proof -
  from checkRateLimit_Inr [OF assms] obtain rateLimit w1 usageRecords w2 where
    g: "getRateLimit (serviceId request) (requestTier request) w = (Inr rateLimit, w1)" and
    q: "getUsageInWindow (serviceId request) (clientId request) (now w - windowMs rateLimit) w1
          = (Inr usageRecords, w2)" and
    p: "if allowed response
        then recordUsage (serviceId request) (clientId request) w2 = (Inr (), w')
        else w' = w2"
    by blast
  have t: "usageTable w2 = usageTable w" and n: "now w2 = now w"
    using getRateLimit_usageTable [OF g] getRateLimit_now [OF g] getUsageInWindow_Inr [OF q]
    by simp_all
  show ?thesis
  proof (cases "allowed response")
    case True
    with p have "recordUsage (serviceId request) (clientId request) w2 = (Inr (), w')" by simp
    from recordUsage_Inr [OF this] True show ?thesis by (simp add: t n)
  next
    case False
    with p t show ?thesis by simp
  qed
qed

text \<open>An admitted request adds exactly one record when the log has none of the key for that
  millisecond; a denied request leaves the log as it was.\<close>

lemma checkRateLimit_appends_when_fresh:
  assumes "checkRateLimit request w = (Inr response, w')"
    and "allowed response"
    and "\<forall>x \<in> set (usageTable w).
           \<not> (pk x = usageKey (serviceId request) (clientId request) \<and> sk x = toString (now w))"
  shows "length (usageTable w') = Suc (length (usageTable w))"
  using checkRateLimit_usageTable [OF assms(1)] assms(2,3)
  by (simp add: length_putItem usageAt_def)

lemma checkRateLimit_denied_appends_nothing:
  assumes "checkRateLimit request w = (Inr response, w')"
    and "\<not> allowed response"
  shows "usageTable w' = usageTable w"
  using checkRateLimit_usageTable [OF assms(1)] assms(2) by simp

section \<open>The window query\<close>

text \<open>Where the stored timestamps and the window start are non-negative and have the same
  number of decimal digits, the query returns the records of the key from the window start
  on.\<close>

lemma getUsageInWindow_same_width:
  assumes "getUsageInWindow sid cid since w = (Inr recs, w')"
    and "0 \<le> since"
    and "\<forall>r \<in> set (usageTable w). pk r = usageKey sid cid \<longrightarrow>
           sk r = toString (timestamp r) \<and> 0 \<le> timestamp r \<and>
           length (toString (timestamp r)) = length (toString since)"
  shows "recs = filter (\<lambda>r. pk r = usageKey sid cid \<and> since \<le> timestamp r) (usageTable w)"
proof -
  have "recs = filter (\<lambda>r. pk r = usageKey sid cid \<and> str_ge (sk r) (toString since)) (usageTable w)"
    using getUsageInWindow_Inr [OF assms(1)] by simp
  also have "\<dots> = filter (\<lambda>r. pk r = usageKey sid cid \<and> since \<le> timestamp r) (usageTable w)"
  proof (rule filter_cong [OF refl])
    fix r assume "r \<in> set (usageTable w)"
    with assms(2,3) show "(pk r = usageKey sid cid \<and> str_ge (sk r) (toString since)) =
        (pk r = usageKey sid cid \<and> since \<le> timestamp r)"
      by (auto simp: str_ge_def toString_less)
  qed
  finally show ?thesis .
qed

text \<open>
  C5. The window query is to return exactly the records of the key whose timestamp is at
  least \<open>sinceTimestamp\<close>. It compares decimal strings, so it does not when the two numbers
  differ in their number of digits: with a window of \<open>10^12\<close> ms, which
  \<^verbatim>\<open>validateConfig\<close> accepts, the window start \<open>700000000000\<close> has twelve digits, the
  record of one second ago has thirteen and sorts below it, and the query returns nothing
  although the record lies in the window; the request is admitted where one request per
  window is allowed and one was made.
\<close>

theorem getUsageInWindow_long_window:
  "validateConfig \<lparr>cfg_serviceId = ''uploads'', rules = config longWindowConfig\<rparr> = Inr () \<and>
   fst (getUsageInWindow ''uploads'' ''ip:1.2.3.4'' (1700000000000 - 1000000000000) worldLongWindow)
     = Inr [] \<and>
   filter (\<lambda>r. pk r = usageKey ''uploads'' ''ip:1.2.3.4'' \<and>
               1700000000000 - 1000000000000 \<le> timestamp r) (usageTable worldLongWindow)
     = uploadsUsage [1699999999000] \<and>
   fst (checkRateLimit uploadsRequest worldLongWindow) =
     Inr \<lparr>allowed = True, remaining = 0, resetTime = 2700000000000, retryAfter = None,
          meta_serviceId = ''uploads'', meta_windowMs = 1000000000000, meta_maxRequests = 1\<rparr>"
  by code_simp

section \<open>Recording usage\<close>

text \<open>
  C1. An admitted request is to append exactly one usage record. \<^verbatim>\<open>recordUsage\<close> puts
  the record under the sort key \<^verbatim>\<open>now.toString()\<close>, so a second request admitted for
  the same client in the same millisecond replaces the record of the first: both are
  allowed and the log still holds one record.
\<close>

theorem checkRateLimit_same_ms_overwrites:
  "fst (checkRateLimit uploadsRequest worldEmptyLog) =
     Inr \<lparr>allowed = True, remaining = 4, resetTime = 1700000060000, retryAfter = None,
          meta_serviceId = ''uploads'', meta_windowMs = 60000, meta_maxRequests = 5\<rparr> \<and>
   usageTable worldAfterAdmit = uploadsUsage [1700000000000] \<and>
   fst (checkRateLimit uploadsRequest worldAfterAdmit) =
     Inr \<lparr>allowed = True, remaining = 3, resetTime = 1700000060000, retryAfter = None,
          meta_serviceId = ''uploads'', meta_windowMs = 60000, meta_maxRequests = 5\<rparr> \<and>
   usageTable (snd (checkRateLimit uploadsRequest worldAfterAdmit)) = uploadsUsage [1700000000000]"
  by code_simp

section \<open>Reset\<close>

text \<open>
  C9, as the code has it. When the store accepts the calls, and for records as
  \<^verbatim>\<open>recordUsage\<close> writes them whose timestamps have as many decimal digits as \<open>now\<close>:
  \<^verbatim>\<open>resetRateLimit\<close> succeeds and deletes exactly the records of the pair with a timestamp
  strictly less than \<open>now\<close>; a second reset at that instant succeeds and changes nothing.
  When every record of the pair is strictly older than \<open>now\<close>, the window query returns no
  record after the reset, and a further reset at any later time raises no error on the
  empty log and leaves it empty.
\<close>

theorem resetRateLimit_purges:
  assumes "faults w = []"
    and "0 \<le> now w"
    and "\<forall>r \<in> set (usageTable w). pk r = usageKey sid cid \<longrightarrow>
           sk r = toString (timestamp r) \<and> 0 \<le> timestamp r \<and>
           length (toString (timestamp r)) = length (toString (now w))"
  shows "\<exists>w1. resetRateLimit sid cid w = (Inr (), w1) \<and>
           usageTable w1 =
             filter (\<lambda>r. \<not> (pk r = usageKey sid cid \<and> timestamp r < now w)) (usageTable w) \<and>
           (\<exists>w2. resetRateLimit sid cid w1 = (Inr (), w2) \<and> usageTable w2 = usageTable w1) \<and>
           ((\<forall>r \<in> set (usageTable w). pk r = usageKey sid cid \<longrightarrow> timestamp r < now w) \<longrightarrow>
              (\<forall>ws. \<exists>w'. getUsageInWindow sid cid ws w1 = (Inr [], w')) \<and>
              (\<forall>n2. \<exists>w2. resetRateLimit sid cid (w1\<lparr>now := n2\<rparr>) = (Inr (), w2) \<and>
                     usageTable w2 = usageTable w1 \<and>
                     (\<forall>ws. \<exists>w'. getUsageInWindow sid cid ws w2 = (Inr [], w'))))"
proof -
  from cleanupOldUsage_no_fault [OF assms(1), of sid cid "now w"]
  obtain w1 where c: "cleanupOldUsage sid cid (now w) w = (Inr (), w1)"
    and t: "usageTable w1 =
             filter (\<lambda>r. \<not> (pk r = usageKey sid cid \<and> str_less (sk r) (toString (now w)))) (usageTable w)"
    and f1: "faults w1 = []" and n1: "now w1 = now w"
    by blast
  have idem: "\<exists>w2. resetRateLimit sid cid w1 = (Inr (), w2) \<and> usageTable w2 = usageTable w1"
  proof -
    from cleanupOldUsage_no_fault [OF f1, of sid cid "now w"]
    obtain w2 where c2: "cleanupOldUsage sid cid (now w) w1 = (Inr (), w2)"
      and t2: "usageTable w2 =
             filter (\<lambda>r. \<not> (pk r = usageKey sid cid \<and> str_less (sk r) (toString (now w))))
               (usageTable w1)"
      by blast
    have "usageTable w2 = usageTable w1"
      unfolding t2 unfolding t by simp
    moreover have "resetRateLimit sid cid w1 = (Inr (), w2)"
      using c2 by (simp add: resetRateLimit_def bindIO_def dateNow_def n1)
    ultimately show ?thesis by blast
  qed
  have r1: "resetRateLimit sid cid w = (Inr (), w1)"
    using c by (simp add: resetRateLimit_def bindIO_def dateNow_def)
  have t': "usageTable w1 =
             filter (\<lambda>r. \<not> (pk r = usageKey sid cid \<and> timestamp r < now w)) (usageTable w)"
    unfolding t
  proof (rule filter_cong [OF refl])
    fix r assume "r \<in> set (usageTable w)"
    with assms(2,3) show "(\<not> (pk r = usageKey sid cid \<and> str_less (sk r) (toString (now w)))) =
        (\<not> (pk r = usageKey sid cid \<and> timestamp r < now w))"
      by (auto simp: toString_less)
  qed
  have zero: "(\<forall>ws. \<exists>w'. getUsageInWindow sid cid ws w1 = (Inr [], w')) \<and>
              (\<forall>n2. \<exists>w2. resetRateLimit sid cid (w1\<lparr>now := n2\<rparr>) = (Inr (), w2) \<and>
                     usageTable w2 = usageTable w1 \<and>
                     (\<forall>ws. \<exists>w'. getUsageInWindow sid cid ws w2 = (Inr [], w')))"
    if old: "\<forall>r \<in> set (usageTable w). pk r = usageKey sid cid \<longrightarrow> timestamp r < now w"
  proof -
    from old have none: "\<forall>r \<in> set (usageTable w1). pk r \<noteq> usageKey sid cid"
      by (auto simp: t')
    have q: "\<exists>w'. getUsageInWindow sid cid ws v = (Inr [], w')"
      if "faults v = []" "usageTable v = usageTable w1" for ws v
      using that none by (simp add: getUsageInWindow_no_fault filter_empty_conv)
    have again: "\<exists>w2. resetRateLimit sid cid (w1\<lparr>now := n2\<rparr>) = (Inr (), w2) \<and>
                     usageTable w2 = usageTable w1 \<and>
                     (\<forall>ws. \<exists>w'. getUsageInWindow sid cid ws w2 = (Inr [], w'))" for n2
    proof -
      have f2: "faults (w1\<lparr>now := n2\<rparr>) = []" using f1 by simp
      from cleanupOldUsage_no_fault [OF f2, of sid cid n2]
      obtain w2 where c2: "cleanupOldUsage sid cid n2 (w1\<lparr>now := n2\<rparr>) = (Inr (), w2)"
        and t2: "usageTable w2 =
             filter (\<lambda>r. \<not> (pk r = usageKey sid cid \<and> str_less (sk r) (toString n2)))
               (usageTable (w1\<lparr>now := n2\<rparr>))"
        and f3: "faults w2 = []"
        by blast
      have "usageTable w2 = usageTable w1"
        using none by (auto simp: t2 filter_id_conv)
      moreover have "resetRateLimit sid cid (w1\<lparr>now := n2\<rparr>) = (Inr (), w2)"
        using c2 by (simp add: resetRateLimit_def bindIO_def dateNow_def)
      ultimately show ?thesis using q [OF f3] by auto
    qed
    from q [OF f1 refl] again show ?thesis by blast
  qed
  from r1 t' idem zero show ?thesis by blast
qed

theorem resetRateLimit_purges_witness:
  "fst (resetRateLimit ''uploads'' ''ip:1.2.3.4'' worldTwoPrior) = Inr () \<and>
   usageTable (snd (resetRateLimit ''uploads'' ''ip:1.2.3.4'' worldTwoPrior)) = [] \<and>
   fst (getUsageInWindow ''uploads'' ''ip:1.2.3.4'' 1699999940000
          (snd (resetRateLimit ''uploads'' ''ip:1.2.3.4'' worldTwoPrior))) = Inr [] \<and>
   fst (resetRateLimit ''uploads'' ''ip:1.2.3.4''
          ((snd (resetRateLimit ''uploads'' ''ip:1.2.3.4'' worldTwoPrior))\<lparr>now := 1700000000005\<rparr>)) = Inr ()"
proof -
  let ?w = worldTwoPrior
  have f: "faults ?w = []" and n: "0 \<le> now ?w"
    by (simp_all add: worldTwoPrior_def quietWorld_def)
  have wf: "\<forall>r \<in> set (usageTable ?w). pk r = usageKey ''uploads'' ''ip:1.2.3.4'' \<longrightarrow>
           sk r = toString (timestamp r) \<and> 0 \<le> timestamp r \<and>
           length (toString (timestamp r)) = length (toString (now ?w))"
    by code_simp
  have old: "\<forall>r \<in> set (usageTable ?w). pk r = usageKey ''uploads'' ''ip:1.2.3.4'' \<longrightarrow> timestamp r < now ?w"
    by code_simp
  have all: "filter (\<lambda>r. \<not> (pk r = usageKey ''uploads'' ''ip:1.2.3.4'' \<and> timestamp r < now ?w))
               (usageTable ?w) = []"
    by code_simp
  from resetRateLimit_purges [OF f n wf, unfolded all]
  obtain w1 where r: "resetRateLimit ''uploads'' ''ip:1.2.3.4'' ?w = (Inr (), w1)"
    and t: "usageTable w1 = []"
    and i: "\<exists>w2. resetRateLimit ''uploads'' ''ip:1.2.3.4'' w1 = (Inr (), w2) \<and> usageTable w2 = usageTable w1"
    and z: "(\<forall>r \<in> set (usageTable ?w). pk r = usageKey ''uploads'' ''ip:1.2.3.4'' \<longrightarrow>
                timestamp r < now ?w) \<longrightarrow>
            (\<forall>ws. \<exists>w'. getUsageInWindow ''uploads'' ''ip:1.2.3.4'' ws w1 = (Inr [], w')) \<and>
            (\<forall>n2. \<exists>w2. resetRateLimit ''uploads'' ''ip:1.2.3.4'' (w1\<lparr>now := n2\<rparr>) = (Inr (), w2) \<and>
                   usageTable w2 = usageTable w1 \<and>
                   (\<forall>ws. \<exists>w'. getUsageInWindow ''uploads'' ''ip:1.2.3.4'' ws w2 = (Inr [], w')))"
    by blast
  from z old have q: "\<forall>ws. \<exists>w'. getUsageInWindow ''uploads'' ''ip:1.2.3.4'' ws w1 = (Inr [], w')"
    and a: "\<forall>n2. \<exists>w2. resetRateLimit ''uploads'' ''ip:1.2.3.4'' (w1\<lparr>now := n2\<rparr>) = (Inr (), w2) \<and>
                   usageTable w2 = usageTable w1 \<and>
                   (\<forall>ws. \<exists>w'. getUsageInWindow ''uploads'' ''ip:1.2.3.4'' ws w2 = (Inr [], w'))"
    by blast+
  from q obtain w' where "getUsageInWindow ''uploads'' ''ip:1.2.3.4'' 1699999940000 w1 = (Inr [], w')"
    by blast
  moreover from a obtain w2 where
    "resetRateLimit ''uploads'' ''ip:1.2.3.4'' (w1\<lparr>now := 1700000000005\<rparr>) = (Inr (), w2)"
    by blast
  ultimately show ?thesis using r t by simp
qed

text \<open>
  C9 as stated fails for a record written in the millisecond of the reset: its timestamp is
  not strictly less than \<open>now\<close>, so it survives both resets and the usage stays at one.
\<close>

theorem reset_keeps_record_of_same_ms_counterexample:
  "fst (checkRateLimit uploadsRequest worldEmptyLog) =
     Inr \<lparr>allowed = True, remaining = 4, resetTime = 1700000060000, retryAfter = None,
          meta_serviceId = ''uploads'', meta_windowMs = 60000, meta_maxRequests = 5\<rparr> \<and>
   fst (resetRateLimit ''uploads'' ''ip:1.2.3.4'' worldAfterAdmit) = Inr () \<and>
   fst (getUsageStats ''uploads'' ''ip:1.2.3.4'' ''default'' worldAfterReset) =
     Inr \<lparr>currentUsage = 1, stats_maxRequests = 5, stats_windowMs = 60000,
          stats_resetTime = 1700000060000, stats_remaining = 4\<rparr> \<and>
   fst (resetRateLimit ''uploads'' ''ip:1.2.3.4'' worldAfterReset) = Inr () \<and>
   fst (getUsageStats ''uploads'' ''ip:1.2.3.4'' ''default'' worldAfterSecondReset) =
     Inr \<lparr>currentUsage = 1, stats_maxRequests = 5, stats_windowMs = 60000,
          stats_resetTime = 1700000060000, stats_remaining = 4\<rparr>"
  by code_simp

section \<open>The two variants of the service\<close>

text \<open>The variant that logs has the results and the effects of the plain one whenever the
  time values it formats are valid dates.\<close>

lemma checkRateLimitLogged_eq:
  assumes "validTime (now w)"
    and "\<And>rl w1. getRateLimit (serviceId request) (requestTier request) w = (Inr rl, w1) \<Longrightarrow>
           validTime (now w - windowMs rl) \<and> validTime (now w + windowMs rl)"
  shows "checkRateLimitLogged request w = checkRateLimit request w"
proof (cases "validateRequest request")
  case (Inl e)
  with assms(1) show ?thesis
    by (simp add: checkRateLimitLogged_def checkRateLimit_def bindIO_def liftE_def dateNow_def
        toISOString_def)
next
  case (Inr u)
  obtain r w1 where g: "getRateLimit (serviceId request) (requestTier request) w = (r, w1)"
    by (cases "getRateLimit (serviceId request) (requestTier request) w")
  have n: "now w1 = now w" using g by (rule getRateLimit_now)
  show ?thesis
  proof (cases r)
    case (Inl e)
    with Inr g assms(1) show ?thesis
      by (simp add: checkRateLimitLogged_def checkRateLimit_def bindIO_def liftE_def dateNow_def
          toISOString_def)
  next
    case rl: (Inr rl)
    with assms(2) g have v: "validTime (now w - windowMs rl)" "validTime (now w + windowMs rl)"
      by blast+
    obtain q w2 where u: "getUsageInWindow (serviceId request) (clientId request)
        (now w - windowMs rl) w1 = (q, w2)"
      by (cases "getUsageInWindow (serviceId request) (clientId request) (now w - windowMs rl) w1")
    show ?thesis
      using Inr g rl n v u assms(1)
      by (cases q) (simp_all add: checkRateLimitLogged_def checkRateLimit_def bindIO_def liftE_def
          dateNow_def toISOString_def Let_def calculateNextWindowStart_def)
  qed
qed

lemma getUsageStatsLogged_eq: "getUsageStatsLogged sid cid t = getUsageStats sid cid t"
  by (simp add: getUsageStatsLogged_def getUsageStats_def Let_def)

lemma resetRateLimitLogged_eq: "resetRateLimitLogged sid cid = resetRateLimit sid cid"
  by (simp add: resetRateLimitLogged_def resetRateLimit_def)

lemma isBlockedLogged_eq: "isBlockedLogged sid cid t = isBlocked sid cid t"
  by (simp add: isBlockedLogged_def isBlocked_def getUsageStatsLogged_eq)

lemma getTimeUntilResetLogged_eq: "getTimeUntilResetLogged sid cid t = getTimeUntilReset sid cid t"
  by (simp add: getTimeUntilResetLogged_def getTimeUntilReset_def getUsageStatsLogged_eq)

text \<open>
  C10. The two variants are to be observationally equivalent. They are not for a rule whose
  window puts \<open>now - windowMs\<close> or \<open>now + windowMs\<close> beyond the range of dates: the plain
  variant admits the request and records it, the logging variant throws a
  \<^verbatim>\<open>RangeError\<close> while formatting the window start, after the configuration read and
  before the usage query.
\<close>

theorem checkRateLimitLogged_huge_window:
  "validateConfig \<lparr>cfg_serviceId = ''uploads'', rules = config hugeWindowConfig\<rparr> = Inr () \<and>
   fst (checkRateLimit uploadsRequest worldHugeWindow) =
     Inr \<lparr>allowed = True, remaining = 4, resetTime = 9001700000000000, retryAfter = None,
          meta_serviceId = ''uploads'', meta_windowMs = 9000000000000000, meta_maxRequests = 5\<rparr> \<and>
   sent (snd (checkRateLimit uploadsRequest worldHugeWindow)) =
     [GetConfig ''uploads'',
      QueryUsageGE ''uploads#ip:1.2.3.4'' ''-8998300000000000'',
      PutUsage (usageAt ''uploads#ip:1.2.3.4'' 1700000000000)] \<and>
   fst (checkRateLimitLogged uploadsRequest worldHugeWindow) =
     Inl (RangeError ''Invalid time value'') \<and>
   sent (snd (checkRateLimitLogged uploadsRequest worldHugeWindow)) = [GetConfig ''uploads''] \<and>
   usageTable (snd (checkRateLimit uploadsRequest worldHugeWindow)) = uploadsUsage [1700000000000] \<and>
   usageTable (snd (checkRateLimitLogged uploadsRequest worldHugeWindow)) = []"
  by code_simp

end
